theory Spec2Isabelle
  imports Main
begin

section \<open>Python strings and truthiness\<close>

text \<open>
  A Python \<open>str\<close> is modelled as a \<open>string\<close>; a character stands for the code point
  of the same number (0 to 255). \<open>str.isalnum\<close> and \<open>str.isspace\<close> are the
  interpreter's character classes on that range.
\<close>

definition py_isalnum_char :: "char \<Rightarrow> bool" where
  "py_isalnum_char c =
     (let n = (of_char c :: nat) in
        (48 \<le> n \<and> n \<le> 57) \<or> (65 \<le> n \<and> n \<le> 90) \<or> (97 \<le> n \<and> n \<le> 122) \<or>
        n = 170 \<or> n = 178 \<or> n = 179 \<or> n = 181 \<or> n = 185 \<or> n = 186 \<or>
        (188 \<le> n \<and> n \<le> 190) \<or> (192 \<le> n \<and> n \<le> 214) \<or>
        (216 \<le> n \<and> n \<le> 246) \<or> 248 \<le> n)"

text \<open>\<open>s.isalnum()\<close>: at least one character, and all of them alphanumeric.\<close>

definition isalnum :: "string \<Rightarrow> bool" where
  "isalnum s = (s \<noteq> [] \<and> list_all py_isalnum_char s)"

definition py_isspace_char :: "char \<Rightarrow> bool" where
  "py_isspace_char c =
     (let n = (of_char c :: nat) in
        (9 \<le> n \<and> n \<le> 13) \<or> (28 \<le> n \<and> n \<le> 32) \<or> n = 133 \<or> n = 160)"

text \<open>\<open>s.strip()\<close>: leading and trailing whitespace removed.\<close>

definition strip :: "string \<Rightarrow> string" where
  "strip s = rev (dropWhile py_isspace_char (rev (dropWhile py_isspace_char s)))"

text \<open>\<open>s.startswith(p)\<close>.\<close>

fun startswith :: "string \<Rightarrow> string \<Rightarrow> bool" where
  "startswith s [] = True"
| "startswith [] (p # ps) = False"
| "startswith (c # cs) (p # ps) = (c = p \<and> startswith cs ps)"

text \<open>\<open>sub in s\<close> for strings: \<open>sub\<close> occurs in \<open>s\<close> as a contiguous substring.\<close>

fun py_in :: "string \<Rightarrow> string \<Rightarrow> bool" where
  "py_in sub [] = (sub = [])"
| "py_in sub (c # cs) = (startswith (c # cs) sub \<or> py_in sub cs)"

text \<open>
  \<open>not key\<close> for an \<open>Optional[str]\<close>: \<open>None\<close> and the empty string are both falsy.
\<close>

fun falsy :: "string option \<Rightarrow> bool" where
  "falsy None = True"
| "falsy (Some k) = (k = [])"

section \<open>LLMManager: the provider registry\<close>

datatype llm_class = ChatGoogleGenerativeAI | ChatAnthropic | ChatOpenAI

record model_config =
  name :: string
  provider :: string
  model :: string
  key_env :: string
  llm_class :: llm_class

text \<open>\<open>LLMManager.MODELS\<close>, in the dictionary's insertion order.\<close>

definition MODELS :: "(string \<times> model_config) list" where
  "MODELS =
     [(''1'', \<lparr>name = ''Gemini'', provider = ''Google'', model = ''gemini-2.0-flash-exp'',
              key_env = ''GOOGLE_API_KEY'', llm_class = ChatGoogleGenerativeAI\<rparr>),
      (''2'', \<lparr>name = ''Claude'', provider = ''Anthropic'', model = ''claude-3-opus-20240229'',
              key_env = ''ANTHROPIC_API_KEY'', llm_class = ChatAnthropic\<rparr>),
      (''3'', \<lparr>name = ''GPT-4'', provider = ''OpenAI'', model = ''gpt-4'',
              key_env = ''OPENAI_API_KEY'', llm_class = ChatOpenAI\<rparr>)]"

section \<open>Key format validation and masking\<close>

text \<open>
  \<open>LLMManager._validate_key_format(provider, key)\<close>. The provider comes from a registry
  entry or from \<open>_get_provider\<close>, which may return \<open>None\<close>; the key comes from
  \<open>os.getenv\<close> or from the operator, and may be \<open>None\<close> as well.
\<close>

definition validate_key_format :: "string option \<Rightarrow> string option \<Rightarrow> bool" where
  "validate_key_format prov key =
     (case key of
        None \<Rightarrow> False
      | Some k \<Rightarrow>
          if k = [] then False
          else if prov = Some ''Google'' then startswith k ''AIzaSy''
          else if prov = Some ''OpenAI'' then startswith k ''sk-''
          else if prov = Some ''Anthropic'' then length k = 40 \<and> isalnum k
          else False)"

text \<open>
  \<open>LLMManager._mask_key(key)\<close>: \<open>key[:4]\<close> is \<open>take 4\<close>, and \<open>key[-4:]\<close> is the last
  four characters, or the whole key when it has fewer than four.
\<close>

definition mask_key :: "string option \<Rightarrow> string" where
  "mask_key key =
     (case key of
        None \<Rightarrow> ''Not set''
      | Some k \<Rightarrow>
          if k = [] then ''Not set''
          else take 4 k @ ''...'' @ drop (length k - 4) k)"

section \<open>The secret store and the external calls\<close>

text \<open>
  The process environment (\<open>os.environ\<close>) and the \<open>.env\<close> file are two maps from key
  names to values. An unset name is \<open>None\<close>; a name set to the empty string is
  \<open>Some []\<close>. Every call that leaves the program (\<open>set_key\<close>, \<open>load_dotenv\<close>, the
  construction of a chat client, \<open>ainvoke\<close>) and the line that shows the masked current
  key are appended to \<open>events\<close> when they are made.
\<close>

datatype event =
    SetKey string string
  | LoadDotenv
  | LLMConstruct llm_class string string string int
  | LLMInvoke "(string \<times> string) list"
  | ShowCurrentKey string string

record world =
  environ :: "string \<rightharpoonup> string"
  dotenv :: "string \<rightharpoonup> string"
  events :: "event list"

text \<open>
  What the outside does is not decided by the program, so it is an argument of the model:
  how one call of \<open>_update_env_safely\<close> ends, and how one probe of a provider ends (the
  client's constructor raises, \<open>ainvoke\<close> raises, or a response arrives whose
  \<open>str(response.content)\<close> is the given text).

  In \<open>_update_env_safely\<close> the file lock is taken outside the \<open>try\<close> block, so an
  exception of the lock leaves the method, while an exception of \<open>set_key\<close> or of
  \<open>load_dotenv\<close> is caught. When both return, \<open>load_dotenv\<close> has read the file back.
  What it reads for a name need not be what \<open>set_key\<close> was given: python-dotenv parses
  the file and expands \<open>${NAME}\<close> references, and the repository does not fix the
  version of the library. So the dictionary that \<open>load_dotenv\<close> has read is part of the
  outcome, the argument of \<open>IoOk\<close>. The field \<open>dotenv\<close> holds, for each name, the
  value that \<open>set_key\<close> was last given.
\<close>

datatype io_outcome =
    LockRaises string
  | SetKeyRaises string
  | LoadDotenvRaises string
  | IoOk "string \<rightharpoonup> string"

datatype llm_outcome = InitRaises string | InvokeRaises string | Responds string

text \<open>
  \<open>LLMManager._update_env_safely(key_env, new_key)\<close>. \<open>set_key\<close> is given the stripped
  value; \<open>load_dotenv(override=True)\<close> copies every entry it has read into the
  environment. An exception of either is caught and gives \<open>False\<close>; \<open>Inl e\<close> means that
  \<open>e\<close> leaves the method.
\<close>

definition update_env_safely ::
  "io_outcome \<Rightarrow> string \<Rightarrow> string \<Rightarrow> world \<Rightarrow> (string + bool) \<times> world" where
  "update_env_safely io kenv new_key w =
     (case io of
        LockRaises e \<Rightarrow> (Inl e, w)
      | SetKeyRaises e \<Rightarrow>
          (Inr False, w\<lparr>events := events w @ [SetKey kenv (strip new_key)]\<rparr>)
      | LoadDotenvRaises e \<Rightarrow>
          (Inr False, w\<lparr>dotenv := (dotenv w)(kenv \<mapsto> strip new_key),
                         events := events w @ [SetKey kenv (strip new_key), LoadDotenv]\<rparr>)
      | IoOk loaded \<Rightarrow>
          (Inr True, w\<lparr>dotenv := (dotenv w)(kenv \<mapsto> strip new_key),
                        environ := environ w ++ loaded,
                        events := events w @ [SetKey kenv (strip new_key), LoadDotenv]\<rparr>))"

text \<open>\<open>LLMManager._get_provider(key_env)\<close>: the first registry entry with that key name.\<close>

fun get_provider_loop :: "model_config list \<Rightarrow> string \<Rightarrow> string option" where
  "get_provider_loop [] kenv = None"
| "get_provider_loop (m # ms) kenv =
     (if key_env m = kenv then Some (provider m) else get_provider_loop ms kenv)"

definition get_provider :: "string \<Rightarrow> string option" where
  "get_provider kenv = get_provider_loop (map snd MODELS) kenv"

text \<open>A call whose returned flag is not used: only an exception of it is left.\<close>

definition flag_dropped :: "(string + bool) \<times> world \<Rightarrow> (string + unit) \<times> world" where
  "flag_dropped r =
     (case r of
        (Inl e, w) \<Rightarrow> (Inl e, w)
      | (Inr b, w) \<Rightarrow> (Inr (), w))"

text \<open>\<open>LLMManager._revert_key_safely(key_env, old_key)\<close>; the result of the write is dropped.\<close>

definition revert_key_safely ::
  "io_outcome \<Rightarrow> string \<Rightarrow> string option \<Rightarrow> world \<Rightarrow> (string + unit) \<times> world" where
  "revert_key_safely io kenv old_key w =
     (if \<not> falsy old_key \<and> validate_key_format (get_provider kenv) old_key
      then (case old_key of
              Some k \<Rightarrow> flag_dropped (update_env_safely io kenv k w)
            | None \<Rightarrow> flag_dropped (update_env_safely io kenv [] w))
      else flag_dropped (update_env_safely io kenv [] w))"

section \<open>Verification of a stored key\<close>

text \<open>The messages \<open>verify_api_key\<close> returns, one constructor for each format string.\<close>

datatype verify_msg =
    NoApiKeyFound
  | InvalidKeyFormat string
  | ErrorInitializingLLM string
  | VerifiedSuccessfully
  | UnexpectedResponse
  | VerificationFailed string
  | ProcessErrorKeyError string

definition test_messages :: "(string \<times> string) list" where
  "test_messages = [(''user'', ''Respond with exactly 'OK' and nothing else'')]"

text \<open>The keyword under which each branch passes the key to the client's constructor.\<close>

definition api_key_kwarg :: "string \<Rightarrow> string" where
  "api_key_kwarg prov =
     (if prov = ''Google'' then ''google_api_key''
      else if prov = ''Anthropic'' then ''anthropic_api_key''
      else ''api_key'')"

text \<open>
  \<open>LLMManager.verify_api_key(model_id)\<close>. \<open>MODELS[model_id]\<close> raises \<open>KeyError\<close> for an
  unknown id, which the outer handler turns into a failure message.
\<close>

definition verify_api_key :: "llm_outcome \<Rightarrow> string \<Rightarrow> world \<Rightarrow> (bool \<times> verify_msg) \<times> world" where
  "verify_api_key out model_id w =
     (case map_of MODELS model_id of
        None \<Rightarrow> ((False, ProcessErrorKeyError model_id), w)
      | Some config \<Rightarrow>
          (case environ w (key_env config) of
             None \<Rightarrow> ((False, NoApiKeyFound), w)
           | Some api_key \<Rightarrow>
               if api_key = [] then ((False, NoApiKeyFound), w)
               else if \<not> validate_key_format (Some (provider config)) (Some api_key)
               then ((False, InvalidKeyFormat (provider config)), w)
               else
                 let w1 = w\<lparr>events := events w @
                            [LLMConstruct (llm_class config) (api_key_kwarg (provider config))
                               api_key (model config) 0]\<rparr>
                 in (case out of
                       InitRaises e \<Rightarrow> ((False, ErrorInitializingLLM e), w1)
                     | InvokeRaises e \<Rightarrow>
                         ((False, VerificationFailed e),
                          w1\<lparr>events := events w1 @ [LLMInvoke test_messages]\<rparr>)
                     | Responds content \<Rightarrow>
                         (if py_in ''OK'' content
                          then (True, VerifiedSuccessfully)
                          else (False, UnexpectedResponse),
                          w1\<lparr>events := events w1 @ [LLMInvoke test_messages]\<rparr>))))"

text \<open>\<open>LLMManager.check_api_key(model_id)\<close>.\<close>

definition check_api_key :: "string \<Rightarrow> world \<Rightarrow> bool" where
  "check_api_key model_id w =
     (case map_of MODELS model_id of
        None \<Rightarrow> False
      | Some config \<Rightarrow>
          let api_key = environ w (key_env config) in
          if falsy api_key then False
          else validate_key_format (Some (provider config)) api_key)"

text \<open>
  \<open>LLMManager.list_models()\<close>: every registry entry whose key is set and non-empty is
  probed; \<open>outs\<close> gives the outcome of the probe of each model id. The result is the
  dictionary \<open>model_statuses\<close>.
\<close>

fun list_models_loop ::
  "(string \<Rightarrow> llm_outcome) \<Rightarrow> (string \<times> model_config) list \<Rightarrow> (string \<rightharpoonup> bool) \<Rightarrow> world
     \<Rightarrow> (string \<rightharpoonup> bool) \<times> world" where
  "list_models_loop outs [] statuses w = (statuses, w)"
| "list_models_loop outs ((mid, m) # rest) statuses w =
     (if \<not> falsy (environ w (key_env m))
      then (case verify_api_key (outs mid) mid w of
              ((is_valid, message), w') \<Rightarrow>
                list_models_loop outs rest (statuses(mid \<mapsto> is_valid)) w')
      else list_models_loop outs rest (statuses(mid \<mapsto> False)) w)"

definition list_models :: "(string \<Rightarrow> llm_outcome) \<Rightarrow> world \<Rightarrow> (string \<rightharpoonup> bool) \<times> world" where
  "list_models outs w = list_models_loop outs MODELS Map.empty w"

section \<open>Adding or updating a key\<close>

text \<open>
  \<open>LLMManager.add_update_api_key()\<close>. The two \<open>input()\<close> lines are arguments; what the
  outside does is the oracle: the probes of the status listing, the write of the new key,
  the probe of the new key and the write of the rollback. The report stands for the
  last message printed. An exception that leaves a write is caught by the handler of the
  \<open>try\<close> block, which prints it.
\<close>

record update_oracle =
  listing :: "string \<Rightarrow> llm_outcome"
  persist_io :: io_outcome
  probe :: llm_outcome
  revert_io :: io_outcome

datatype update_report =
    InvalidModelSelection
  | InvalidFormatReport string
  | UpdatedAndVerified verify_msg
  | VerificationFailedReverted verify_msg
  | FailedToUpdate
  | ErrorUpdatingKey string
  | NoChangesMade

definition add_update_api_key ::
  "update_oracle \<Rightarrow> string \<Rightarrow> string \<Rightarrow> world \<Rightarrow> update_report \<times> world" where
  "add_update_api_key orc model_id_line new_key_line w0 =
     (case list_models (listing orc) w0 of
        (model_statuses, w) \<Rightarrow>
          let model_id = strip model_id_line in
          (case map_of MODELS model_id of
             None \<Rightarrow> (InvalidModelSelection, w)
           | Some m \<Rightarrow>
               let current_key = environ w (key_env m);
                   ws = w\<lparr>events := events w @ [ShowCurrentKey (name m) (mask_key current_key)]\<rparr>;
                   new_key = strip new_key_line
               in
                 if new_key \<noteq> [] then
                   if \<not> validate_key_format (Some (provider m)) (Some new_key)
                   then (InvalidFormatReport (provider m), ws)
                   else
                     let current_key_backup = current_key in
                     (case update_env_safely (persist_io orc) (key_env m) new_key ws of
                        (Inl e, w1) \<Rightarrow> (ErrorUpdatingKey e, w1)
                      | (Inr True, w1) \<Rightarrow>
                          (case verify_api_key (probe orc) model_id w1 of
                             ((is_valid, message), w2) \<Rightarrow>
                               if \<not> is_valid
                               then (case revert_key_safely (revert_io orc) (key_env m)
                                            current_key_backup w2 of
                                       (Inl e, w3) \<Rightarrow> (ErrorUpdatingKey e, w3)
                                     | (Inr u, w3) \<Rightarrow> (VerificationFailedReverted message, w3))
                               else (UpdatedAndVerified message, w2))
                      | (Inr False, w1) \<Rightarrow> (FailedToUpdate, w1))
                 else (NoChangesMade, ws)))"

section \<open>BrowserAutomation\<close>

text \<open>
  The object holds a browser handle and a context handle, \<open>None\<close> until built. The calls
  it makes to the browser library, with how each ended, are recorded in \<open>calls\<close>. An
  exception is its message; \<open>Inl e\<close> as the result of a method means that \<open>e\<close> leaves
  the method.
\<close>

datatype ('b, 'c) browser_call =
    BrowserNew "string + 'b"
  | NewContext 'b "string + 'c"
  | ContextClose 'c "string option"
  | BrowserClose 'b "string option"

record ('b, 'c) browser_automation =
  browser :: "'b option"
  bcontext :: "'c option"
  calls :: "('b, 'c) browser_call list"

text \<open>\<open>BrowserAutomation.__init__\<close>.\<close>

definition new_automation :: "('b, 'c) browser_automation" where
  "new_automation = \<lparr>browser = None, bcontext = None, calls = []\<rparr>"

text \<open>How \<open>Browser()\<close> and \<open>browser.new_context()\<close> end, should \<open>initialize\<close> call them.\<close>

record ('b, 'c) init_outcome =
  browser_new :: "string + 'b"
  context_new :: "string + 'c"

text \<open>The second statement of the \<open>try\<close> block: \<open>if not self.context: ...\<close>.\<close>

definition initialize_context ::
  "('b, 'c) init_outcome \<Rightarrow> 'b \<Rightarrow> ('b, 'c) browser_automation
     \<Rightarrow> (string + unit) \<times> ('b, 'c) browser_automation" where
  "initialize_context out b s =
     (case bcontext s of
        Some c \<Rightarrow> (Inr (), s)
      | None \<Rightarrow>
          (case context_new out of
             Inl e \<Rightarrow> (Inl e, s\<lparr>calls := calls s @ [NewContext b (Inl e)]\<rparr>)
           | Inr c \<Rightarrow> (Inr (), s\<lparr>bcontext := Some c,
                                  calls := calls s @ [NewContext b (Inr c)]\<rparr>)))"

text \<open>
  \<open>BrowserAutomation.initialize()\<close>. The handler logs and raises again, so an exception
  of either constructor leaves the method with the fields as they are at that point.
\<close>

definition initialize ::
  "('b, 'c) init_outcome \<Rightarrow> ('b, 'c) browser_automation
     \<Rightarrow> (string + unit) \<times> ('b, 'c) browser_automation" where
  "initialize out s =
     (if browser s \<noteq> None \<and> bcontext s \<noteq> None then (Inr (), s)
      else
        (case browser s of
           Some b \<Rightarrow> initialize_context out b s
         | None \<Rightarrow>
             (case browser_new out of
                Inl e \<Rightarrow> (Inl e, s\<lparr>calls := calls s @ [BrowserNew (Inl e)]\<rparr>)
              | Inr b \<Rightarrow>
                  initialize_context out b
                    (s\<lparr>browser := Some b, calls := calls s @ [BrowserNew (Inr b)]\<rparr>))))"

text \<open>How \<open>context.close()\<close> and \<open>browser.close()\<close> end (\<open>Some e\<close>: raises \<open>e\<close>).\<close>

record close_outcome =
  context_close :: "string option"
  browser_close :: "string option"

text \<open>The second statement of the \<open>try\<close> block of \<open>cleanup\<close>: \<open>if self.browser: ...\<close>.\<close>

definition cleanup_browser ::
  "close_outcome \<Rightarrow> ('b, 'c) browser_automation \<Rightarrow> (string + unit) \<times> ('b, 'c) browser_automation" where
  "cleanup_browser out s =
     (case browser s of
        None \<Rightarrow> (Inr (), s)
      | Some b \<Rightarrow>
          (case browser_close out of
             Some e \<Rightarrow> (Inl e, s\<lparr>calls := calls s @ [BrowserClose b (Some e)]\<rparr>)
           | None \<Rightarrow> (Inr (), s\<lparr>browser := None,
                                  calls := calls s @ [BrowserClose b None]\<rparr>)))"

text \<open>The \<open>try\<close> block of \<open>cleanup\<close>: an exception of a close ends the block at once.\<close>

definition cleanup_body ::
  "close_outcome \<Rightarrow> ('b, 'c) browser_automation \<Rightarrow> (string + unit) \<times> ('b, 'c) browser_automation" where
  "cleanup_body out s =
     (case bcontext s of
        None \<Rightarrow> cleanup_browser out s
      | Some c \<Rightarrow>
          (case context_close out of
             Some e \<Rightarrow> (Inl e, s\<lparr>calls := calls s @ [ContextClose c (Some e)]\<rparr>)
           | None \<Rightarrow>
               cleanup_browser out
                 (s\<lparr>bcontext := None, calls := calls s @ [ContextClose c None]\<rparr>)))"

text \<open>
  \<open>BrowserAutomation.cleanup()\<close>: one handler around the whole block catches the
  exception and logs it; nothing is raised again.
\<close>

definition cleanup ::
  "close_outcome \<Rightarrow> ('b, 'c) browser_automation \<Rightarrow> (string + unit) \<times> ('b, 'c) browser_automation" where
  "cleanup out s =
     (case cleanup_body out s of
        (Inl e, s') \<Rightarrow> (Inr (), s')
      | (Inr u, s') \<Rightarrow> (Inr (), s'))"

text \<open>Calling \<open>initialize\<close> several times in a row, the caller going on after a failure.\<close>

fun initialize_times ::
  "('b, 'c) init_outcome list \<Rightarrow> ('b, 'c) browser_automation \<Rightarrow> ('b, 'c) browser_automation" where
  "initialize_times [] s = s"
| "initialize_times (out # outs) s = initialize_times outs (snd (initialize out s))"

text \<open>The construction counters: the browsers and the contexts that were built.\<close>

fun built_browser :: "('b, 'c) browser_call \<Rightarrow> bool" where
  "built_browser (BrowserNew (Inr b)) = True"
| "built_browser other = False"

fun built_context :: "('b, 'c) browser_call \<Rightarrow> bool" where
  "built_context (NewContext b (Inr c)) = True"
| "built_context other = False"

definition browsers_built :: "('b, 'c) browser_automation \<Rightarrow> nat" where
  "browsers_built s = length (filter built_browser (calls s))"

definition contexts_built :: "('b, 'c) browser_automation \<Rightarrow> nat" where
  "contexts_built s = length (filter built_context (calls s))"

section \<open>Observing the history of calls\<close>

text \<open>The calls that write the store: \<open>set_key\<close> and \<open>load_dotenv\<close>.\<close>

fun is_store_write :: "event \<Rightarrow> bool" where
  "is_store_write (SetKey k v) = True"
| "is_store_write LoadDotenv = True"
| "is_store_write other = False"

text \<open>The counters agree with the handles: a handle is set iff it was built, once.\<close>

definition counted :: "('b, 'c) browser_automation \<Rightarrow> bool" where
  "counted s \<longleftrightarrow>
     browsers_built s = (case browser s of None \<Rightarrow> 0 | Some b \<Rightarrow> 1)
     \<and> contexts_built s = (case bcontext s of None \<Rightarrow> 0 | Some c \<Rightarrow> 1)"

section \<open>Facts about strings and the registry\<close>

lemma startswith_iff: "startswith s p \<longleftrightarrow> (\<exists>r. s = p @ r)"
  by (induction s p rule: startswith.induct) auto

lemma py_in_iff: "py_in sub s \<longleftrightarrow> (\<exists>pre post. s = pre @ sub @ post)"
proof (induction s)
  case Nil
  then show ?case by auto
next
  case (Cons c cs)
  show ?case
  proof
    assume "py_in sub (c # cs)"
    then consider "startswith (c # cs) sub" | "py_in sub cs" by auto
    then show "\<exists>pre post. c # cs = pre @ sub @ post"
    proof cases
      case 1
      then obtain r where "c # cs = sub @ r" by (auto simp: startswith_iff)
      then have "c # cs = [] @ sub @ r" by simp
      then show ?thesis by blast
    next
      case 2
      with Cons.IH obtain pre post where "cs = pre @ sub @ post" by auto
      then have "c # cs = (c # pre) @ sub @ post" by simp
      then show ?thesis by blast
    qed
  next
    assume "\<exists>pre post. c # cs = pre @ sub @ post"
    then obtain pre post where e: "c # cs = pre @ sub @ post" by auto
    show "py_in sub (c # cs)"
    proof (cases pre)
      case Nil
      with e have "startswith (c # cs) sub" by (auto simp: startswith_iff)
      then show ?thesis by simp
    next
      case (Cons a pre')
      with e have "cs = pre' @ sub @ post" by simp
      with Cons.IH have "py_in sub cs" by blast
      then show ?thesis by simp
    qed
  qed
qed

lemma map_of_MODELS_cases:
  assumes "map_of MODELS mid = Some cfg"
  shows "(mid = ''1'' \<and> cfg = \<lparr>name = ''Gemini'', provider = ''Google'',
              model = ''gemini-2.0-flash-exp'', key_env = ''GOOGLE_API_KEY'',
              llm_class = ChatGoogleGenerativeAI\<rparr>)
       \<or> (mid = ''2'' \<and> cfg = \<lparr>name = ''Claude'', provider = ''Anthropic'',
              model = ''claude-3-opus-20240229'', key_env = ''ANTHROPIC_API_KEY'',
              llm_class = ChatAnthropic\<rparr>)
       \<or> (mid = ''3'' \<and> cfg = \<lparr>name = ''GPT-4'', provider = ''OpenAI'',
              model = ''gpt-4'', key_env = ''OPENAI_API_KEY'', llm_class = ChatOpenAI\<rparr>)"
  using assms by (auto simp: MODELS_def split: if_splits)

lemma map_of_MODELS_1:
  "map_of MODELS ''1'' = Some \<lparr>name = ''Gemini'', provider = ''Google'',
     model = ''gemini-2.0-flash-exp'', key_env = ''GOOGLE_API_KEY'',
     llm_class = ChatGoogleGenerativeAI\<rparr>"
  by (simp add: MODELS_def)

lemma get_provider_registered:
  assumes "map_of MODELS mid = Some m"
  shows "get_provider (key_env m) = Some (provider m)"
  using map_of_MODELS_cases [OF assms] by (auto simp: get_provider_def MODELS_def)

text \<open>\<open>strip\<close> leaves nothing to strip.\<close>

lemma strip_no_leading_space: "dropWhile py_isspace_char (strip s) = strip s"
proof -
  define a where "a = dropWhile py_isspace_char s"
  define b where "b = dropWhile py_isspace_char (rev a)"
  have s: "strip s = rev b" by (simp add: strip_def a_def b_def)
  obtain ys where "rev a = ys @ b"
    using takeWhile_dropWhile_id [of py_isspace_char "rev a"] b_def by metis
  then have a: "a = rev b @ rev ys" by (metis rev_append rev_rev_ident)
  show ?thesis
  proof (cases "b = []")
    case True
    with s show ?thesis by simp
  next
    case False
    then have "rev b \<noteq> []" by simp
    with a have "a \<noteq> []" and "hd a = hd (rev b)" by auto
    moreover from \<open>a \<noteq> []\<close> have "\<not> py_isspace_char (hd a)"
      unfolding a_def by (rule hd_dropWhile)
    ultimately have "\<not> py_isspace_char (hd (rev b))" by simp
    then show ?thesis by (simp add: s dropWhile_eq_self_iff)
  qed
qed

lemma strip_idem: "strip (strip s) = strip s"
proof -
  have "strip (strip s) = rev (dropWhile py_isspace_char (rev (strip s)))"
    by (simp add: strip_def [of "strip s"] strip_no_leading_space)
  also have "\<dots> = strip s" by (simp add: strip_def)
  finally show ?thesis .
qed

section \<open>Frame facts: what verification and the status listing leave alone\<close>

lemma verify_api_key_frame:
  assumes "verify_api_key out mid w = (r, w')"
  shows "environ w' = environ w" and "dotenv w' = dotenv w"
    and "filter is_store_write (events w') = filter is_store_write (events w)"
  using assms
  by (auto simp: verify_api_key_def Let_def split: option.splits if_splits llm_outcome.splits)

lemma list_models_loop_frame:
  assumes "list_models_loop outs ms st w = (st', w')"
  shows "environ w' = environ w \<and> dotenv w' = dotenv w
       \<and> filter is_store_write (events w') = filter is_store_write (events w)"
  using assms
proof (induction ms arbitrary: st w)
  case Nil
  then show ?case by simp
next
  case (Cons p ms)
  obtain mid m where p: "p = (mid, m)" by (cases p)
  show ?case
  proof (cases "falsy (environ w (key_env m))")
    case True
    with Cons.prems p have "list_models_loop outs ms (st(mid \<mapsto> False)) w = (st', w')"
      by simp
    then show ?thesis by (rule Cons.IH)
  next
    case False
    obtain ok msg w1 where v: "verify_api_key (outs mid) mid w = ((ok, msg), w1)"
      by (metis prod.exhaust)
    with Cons.prems p False
    have "list_models_loop outs ms (st(mid \<mapsto> ok)) w1 = (st', w')" by simp
    then have "environ w' = environ w1 \<and> dotenv w' = dotenv w1
       \<and> filter is_store_write (events w') = filter is_store_write (events w1)"
      by (rule Cons.IH)
    with verify_api_key_frame [OF v] show ?thesis by simp
  qed
qed

lemma list_models_frame:
  assumes "list_models outs w = (st', w')"
  shows "environ w' = environ w" and "dotenv w' = dotenv w"
    and "filter is_store_write (events w') = filter is_store_write (events w)"
  using list_models_loop_frame [of outs MODELS Map.empty w st' w'] assms
  by (simp_all add: list_models_def)

lemma list_models_nothing_set:
  "list_models outs \<lparr>environ = Map.empty, dotenv = Map.empty, events = []\<rparr>
     = ([''1'' \<mapsto> False, ''2'' \<mapsto> False, ''3'' \<mapsto> False],
        \<lparr>environ = Map.empty, dotenv = Map.empty, events = []\<rparr>)"
  by (simp add: list_models_def MODELS_def)

lemma strip_Nil: "strip [] = []"
  by (simp add: strip_def)

lemma update_env_safely_ok:
  "update_env_safely (IoOk loaded) kenv v w
     = (Inr True,
        w\<lparr>dotenv := (dotenv w)(kenv \<mapsto> strip v), environ := environ w ++ loaded,
          events := events w @ [SetKey kenv (strip v), LoadDotenv]\<rparr>)"
  by (simp add: update_env_safely_def)

lemma revert_key_safely_ok:
  assumes "target = (case old of
                       None \<Rightarrow> []
                     | Some k \<Rightarrow>
                         if k \<noteq> [] \<and> validate_key_format (get_provider kenv) (Some k)
                         then strip k else [])"
  shows "revert_key_safely (IoOk loaded) kenv old w
     = (Inr (),
        w\<lparr>dotenv := (dotenv w)(kenv \<mapsto> target), environ := environ w ++ loaded,
          events := events w @ [SetKey kenv target, LoadDotenv]\<rparr>)"
  using assms
  by (cases old)
    (simp_all add: revert_key_safely_def update_env_safely_ok flag_dropped_def strip_Nil)

text \<open>A present, format-valid key is verified iff the probe answers with \<open>OK\<close> inside.\<close>

lemma verify_api_key_ok_iff:
  assumes "map_of MODELS mid = Some cfg"
    and "environ w (key_env cfg) = Some k"
    and "validate_key_format (Some (provider cfg)) (Some k)"
  shows "fst (fst (verify_api_key out mid w))
           = (\<exists>content. out = Responds content \<and> py_in ''OK'' content)"
proof -
  from assms(3) have "k \<noteq> []" by (auto simp: validate_key_format_def)
  with assms show ?thesis
    by (cases out) (simp_all add: verify_api_key_def)
qed

section \<open>The format rules\<close>

text \<open>
  C2. For every provider name and value, the format check is true exactly per the
  provider rules: for Google iff the value starts with \<open>AIzaSy\<close>, for OpenAI iff it
  starts with \<open>sk-\<close>, for Anthropic iff it has exactly 40 characters and all of them are
  alphanumeric; any other provider (also no provider) gives false, and an empty or absent
  value gives false for every provider.
\<close>

theorem validate_key_format_rules:
  "validate_key_format (Some ''Google'') (Some k) = (\<exists>r. k = ''AIzaSy'' @ r)
   \<and> validate_key_format (Some ''OpenAI'') (Some k) = (\<exists>r. k = ''sk-'' @ r)
   \<and> validate_key_format (Some ''Anthropic'') (Some k)
       = (length k = 40 \<and> list_all py_isalnum_char k)
   \<and> (p \<notin> {Some ''Google'', Some ''OpenAI'', Some ''Anthropic''}
        \<longrightarrow> validate_key_format p key = False)
   \<and> validate_key_format p None = False
   \<and> validate_key_format p (Some []) = False"
  by (auto simp: validate_key_format_def startswith_iff isalnum_def split: option.splits)

theorem validate_key_format_rules_witness:
  "Some ''Azure'' \<notin> {Some ''Google'', Some ''OpenAI'', Some ''Anthropic''}
   \<and> validate_key_format (Some ''Azure'') (Some ''sk-abc'') = False
   \<and> validate_key_format (Some ''OpenAI'') (Some ''sk-abc'') = True"
  using validate_key_format_rules [of "''sk-abc''" "Some ''Azure''" "Some ''sk-abc''"]
  by simp

section \<open>Masking\<close>

text \<open>
  C10. The display of a stored secret never shows the secret in full. The code has no
  case for a short secret: \<open>sk-\<close> passes the OpenAI format check and is displayed as
  \<open>sk-...sk-\<close>, which contains the whole secret.
\<close>

theorem mask_key_shows_short_secret:
  "validate_key_format (Some ''OpenAI'') (Some ''sk-'')
   \<and> mask_key (Some ''sk-'') = ''sk-...sk-''
   \<and> py_in ''sk-'' (mask_key (Some ''sk-''))"
  by (simp add: mask_key_def validate_key_format_def)

text \<open>
  A secret of five to eight characters is not shown in one piece, but each of its
  characters is on display.
\<close>

lemma mask_key_eight_characters: "mask_key (Some ''sk-12345'') = ''sk-1...2345''"
  by (simp add: mask_key_def)

text \<open>
  From nine characters on, the display is the first four and the last four characters
  around three dots, and the \<open>length k - 8\<close> characters between them are left out.
\<close>

lemma mask_key_long_secret:
  assumes "8 < length k"
  shows "mask_key (Some k) = take 4 k @ ''...'' @ drop (length k - 4) k"
    and "k = take 4 k @ take (length k - 8) (drop 4 k) @ drop (length k - 4) k"
    and "take (length k - 8) (drop 4 k) \<noteq> []"
proof -
  from assms have "k \<noteq> []" by auto
  then show "mask_key (Some k) = take 4 k @ ''...'' @ drop (length k - 4) k"
    by (simp add: mask_key_def)
  have "take (length k - 8) (drop 4 k) @ drop (length k - 4) k
          = take (length k - 8) (drop 4 k) @ drop (length k - 8) (drop 4 k)"
    using assms by simp
  also have "\<dots> = drop 4 k" by (rule append_take_drop_id)
  finally show "k = take 4 k @ take (length k - 8) (drop 4 k) @ drop (length k - 4) k"
    by simp
  show "take (length k - 8) (drop 4 k) \<noteq> []" using assms by auto
qed

section \<open>Verification fails fast\<close>

text \<open>
  C3. For every registered provider, verification checks presence first: when the stored
  secret is absent (unset, or empty), it fails with the "no key found" message; when the
  secret is present but fails the format check, it fails with the format message that
  names the provider. In both cases the world is returned as it was, so no client is
  constructed and no request is sent.
\<close>

theorem verify_api_key_fail_fast:
  assumes "map_of MODELS mid = Some cfg"
  shows "(falsy (environ w (key_env cfg))
            \<longrightarrow> verify_api_key out mid w = ((False, NoApiKeyFound), w))
       \<and> (\<forall>k. environ w (key_env cfg) = Some k \<and> k \<noteq> []
                \<and> \<not> validate_key_format (Some (provider cfg)) (Some k)
            \<longrightarrow> verify_api_key out mid w = ((False, InvalidKeyFormat (provider cfg)), w))"
  using assms by (cases "environ w (key_env cfg)") (auto simp: verify_api_key_def)

theorem verify_api_key_fail_fast_witness:
  "map_of MODELS ''1'' \<noteq> None
   \<and> verify_api_key (Responds ''OK'') ''1''
         \<lparr>environ = Map.empty, dotenv = Map.empty, events = []\<rparr>
       = ((False, NoApiKeyFound), \<lparr>environ = Map.empty, dotenv = Map.empty, events = []\<rparr>)
   \<and> verify_api_key (Responds ''OK'') ''1''
         \<lparr>environ = [''GOOGLE_API_KEY'' \<mapsto> ''sk-abc''], dotenv = Map.empty, events = []\<rparr>
       = ((False, InvalidKeyFormat ''Google''),
          \<lparr>environ = [''GOOGLE_API_KEY'' \<mapsto> ''sk-abc''], dotenv = Map.empty, events = []\<rparr>)"
  using
    verify_api_key_fail_fast [OF map_of_MODELS_1,
      of "\<lparr>environ = Map.empty, dotenv = Map.empty, events = []\<rparr>" "Responds ''OK''"]
    verify_api_key_fail_fast [OF map_of_MODELS_1,
      of "\<lparr>environ = [''GOOGLE_API_KEY'' \<mapsto> ''sk-abc''], dotenv = Map.empty, events = []\<rparr>"
         "Responds ''OK''"]
  by (simp add: map_of_MODELS_1 validate_key_format_def)

section \<open>The probe\<close>

text \<open>
  C4. For every registered provider whose stored secret is present and format-valid,
  verification constructs a client with temperature 0 for that provider, key and model,
  and sends the one fixed prompt through it, once. It succeeds iff \<open>OK\<close> occurs as a
  substring of the content of the response; any other content fails as an unexpected
  response. When no response arrives (the constructor raises, so that nothing is sent,
  or the request raises), verification fails with the error's message.
\<close>

theorem verify_api_key_probe:
  assumes "map_of MODELS mid = Some cfg"
    and "environ w (key_env cfg) = Some k"
    and "validate_key_format (Some (provider cfg)) (Some k)"
  shows "(case out of
            InitRaises e \<Rightarrow>
              verify_api_key out mid w =
                ((False, ErrorInitializingLLM e),
                 w\<lparr>events := events w @
                     [LLMConstruct (llm_class cfg) (api_key_kwarg (provider cfg)) k
                        (model cfg) 0]\<rparr>)
          | InvokeRaises e \<Rightarrow>
              verify_api_key out mid w =
                ((False, VerificationFailed e),
                 w\<lparr>events := events w @
                     [LLMConstruct (llm_class cfg) (api_key_kwarg (provider cfg)) k
                        (model cfg) 0,
                      LLMInvoke test_messages]\<rparr>)
          | Responds content \<Rightarrow>
              verify_api_key out mid w =
                ((if \<exists>pre post. content = pre @ ''OK'' @ post
                  then (True, VerifiedSuccessfully) else (False, UnexpectedResponse)),
                 w\<lparr>events := events w @
                     [LLMConstruct (llm_class cfg) (api_key_kwarg (provider cfg)) k
                        (model cfg) 0,
                      LLMInvoke test_messages]\<rparr>))"
proof -
  from assms(3) have "k \<noteq> []" by (auto simp: validate_key_format_def)
  with assms show ?thesis
    by (cases out) (simp_all add: verify_api_key_def py_in_iff)
qed

theorem verify_api_key_probe_witness:
  "verify_api_key (Responds ''It is OK.'') ''1''
      \<lparr>environ = [''GOOGLE_API_KEY'' \<mapsto> ''AIzaSyA''], dotenv = Map.empty, events = []\<rparr>
     = ((True, VerifiedSuccessfully),
        \<lparr>environ = [''GOOGLE_API_KEY'' \<mapsto> ''AIzaSyA''], dotenv = Map.empty,
         events = [LLMConstruct ChatGoogleGenerativeAI ''google_api_key'' ''AIzaSyA''
                     ''gemini-2.0-flash-exp'' 0,
                   LLMInvoke [(''user'', ''Respond with exactly 'OK' and nothing else'')]]\<rparr>)"
proof -
  have v: "validate_key_format (Some ''Google'') (Some ''AIzaSyA'')"
    by (simp add: validate_key_format_def)
  have c: "\<exists>pre post. ''It is OK.'' = pre @ ''OK'' @ post"
    using py_in_iff [of "''OK''" "''It is OK.''"] by simp
  show ?thesis
    using verify_api_key_probe [OF map_of_MODELS_1,
        of "\<lparr>environ = [''GOOGLE_API_KEY'' \<mapsto> ''AIzaSyA''], dotenv = Map.empty, events = []\<rparr>"
           "''AIzaSyA''" "Responds ''It is OK.''"] v c
    by (simp add: api_key_kwarg_def test_messages_def)
qed

section \<open>The empty string and the unset name\<close>

text \<open>
  C6, as the claim states it: the operations that read the secret treat an empty stored
  secret and an unset one as different states. They do not: with \<open>GOOGLE_API_KEY\<close> set to
  the empty string and with it unset, the status check and the verification give the
  same answers.
\<close>

theorem empty_and_unset_conflated_example:
  "environ \<lparr>environ = [''GOOGLE_API_KEY'' \<mapsto> []], dotenv = Map.empty, events = []\<rparr>
      ''GOOGLE_API_KEY'' = Some []
   \<and> environ \<lparr>environ = Map.empty, dotenv = Map.empty, events = []\<rparr> ''GOOGLE_API_KEY'' = None
   \<and> check_api_key ''1''
        \<lparr>environ = [''GOOGLE_API_KEY'' \<mapsto> []], dotenv = Map.empty, events = []\<rparr>
       = check_api_key ''1'' \<lparr>environ = Map.empty, dotenv = Map.empty, events = []\<rparr>
   \<and> fst (verify_api_key (Responds ''OK'') ''1''
         \<lparr>environ = [''GOOGLE_API_KEY'' \<mapsto> []], dotenv = Map.empty, events = []\<rparr>)
       = fst (verify_api_key (Responds ''OK'') ''1''
         \<lparr>environ = Map.empty, dotenv = Map.empty, events = []\<rparr>)"
  by (simp add: check_api_key_def verify_api_key_def map_of_MODELS_1)

text \<open>
  C6, amended. For every registered provider, the store tells an empty secret from an
  unset one, but the operations that read it do not: for both, the status check is false
  and verification fails with the "no key found" message without any external call.
\<close>

theorem empty_and_unset_read_alike:
  assumes "map_of MODELS mid = Some cfg"
    and "w_unset = w\<lparr>environ := (environ w)(key_env cfg := None)\<rparr>"
    and "w_empty = w\<lparr>environ := (environ w)(key_env cfg \<mapsto> [])\<rparr>"
  shows "environ w_unset (key_env cfg) \<noteq> environ w_empty (key_env cfg)
       \<and> check_api_key mid w_unset = False
       \<and> check_api_key mid w_empty = False
       \<and> verify_api_key out mid w_unset = ((False, NoApiKeyFound), w_unset)
       \<and> verify_api_key out mid w_empty = ((False, NoApiKeyFound), w_empty)"
  using assms by (simp add: check_api_key_def verify_api_key_def)

theorem empty_and_unset_read_alike_witness:
  "check_api_key ''1''
      \<lparr>environ = [''GOOGLE_API_KEY'' \<mapsto> []], dotenv = Map.empty, events = []\<rparr> = False
   \<and> check_api_key ''1'' \<lparr>environ = Map.empty, dotenv = Map.empty, events = []\<rparr> = False
   \<and> verify_api_key (Responds ''OK'') ''1''
        \<lparr>environ = [''GOOGLE_API_KEY'' \<mapsto> []], dotenv = Map.empty, events = []\<rparr>
       = ((False, NoApiKeyFound),
          \<lparr>environ = [''GOOGLE_API_KEY'' \<mapsto> []], dotenv = Map.empty, events = []\<rparr>)"
  using empty_and_unset_read_alike [OF map_of_MODELS_1,
     of "\<lparr>environ = Map.empty, dotenv = Map.empty, events = []\<rparr>"
        "\<lparr>environ = Map.empty, dotenv = Map.empty, events = []\<rparr>"
        "\<lparr>environ = [''GOOGLE_API_KEY'' \<mapsto> []], dotenv = Map.empty, events = []\<rparr>"
        "Responds ''OK''"]
  by simp


section \<open>Rejection before any write\<close>

text \<open>
  C5. An update request whose provider id is unknown, or whose new value is non-empty and
  fails the format check, is rejected before any store write. \<open>wl\<close> is the world after
  the status listing that precedes the request. The rejected request leaves the
  environment and the file as they were for every key, makes no \<open>set_key\<close> or
  \<open>load_dotenv\<close> call (so neither persistence nor rollback runs), and adds nothing to
  the history after the listing but, for a known provider, the line that shows the masked
  current key (so the new value is never verified).
\<close>

theorem add_update_api_key_rejects_before_any_write:
  assumes l: "list_models (listing orc) w0 = (statuses, wl)"
    and a: "add_update_api_key orc model_id_line new_key_line w0 = (report, w')"
    and r: "map_of MODELS (strip model_id_line) = None
          \<or> (strip new_key_line \<noteq> []
              \<and> (\<exists>m. map_of MODELS (strip model_id_line) = Some m
                     \<and> \<not> validate_key_format (Some (provider m)) (Some (strip new_key_line))))"
  shows "environ w' = environ w0 \<and> dotenv w' = dotenv w0
       \<and> filter is_store_write (events w') = filter is_store_write (events w0)
       \<and> (case map_of MODELS (strip model_id_line) of
             None \<Rightarrow> report = InvalidModelSelection \<and> w' = wl
           | Some m \<Rightarrow>
               report = InvalidFormatReport (provider m)
               \<and> w' = wl\<lparr>events := events wl @
                          [ShowCurrentKey (name m) (mask_key (environ w0 (key_env m)))]\<rparr>)"
proof (cases "map_of MODELS (strip model_id_line)")
  case None
  with a l have "report = InvalidModelSelection" and "w' = wl"
    by (simp_all add: add_update_api_key_def)
  with None list_models_frame [OF l] show ?thesis by simp
next
  case (Some m)
  with r have n: "strip new_key_line \<noteq> []"
    and v: "\<not> validate_key_format (Some (provider m)) (Some (strip new_key_line))"
    by auto
  from a l Some n v have "report = InvalidFormatReport (provider m)"
    and "w' = wl\<lparr>events := events wl @
                  [ShowCurrentKey (name m) (mask_key (environ wl (key_env m)))]\<rparr>"
    by (simp_all add: add_update_api_key_def Let_def)
  with Some list_models_frame [OF l] show ?thesis by simp
qed

theorem add_update_api_key_rejects_before_any_write_witness:
  "add_update_api_key
      \<lparr>listing = (\<lambda>i. Responds ''OK''), persist_io = IoOk Map.empty,
        probe = Responds ''OK'', revert_io = IoOk Map.empty\<rparr>
      ''1'' ''bad-format'' \<lparr>environ = Map.empty, dotenv = Map.empty, events = []\<rparr>
     = (InvalidFormatReport ''Google'',
        \<lparr>environ = Map.empty, dotenv = Map.empty,
         events = [ShowCurrentKey ''Gemini'' ''Not set'']\<rparr>)"
proof -
  let ?orc = "\<lparr>listing = (\<lambda>i. Responds ''OK''), persist_io = IoOk Map.empty,
        probe = Responds ''OK'', revert_io = IoOk Map.empty\<rparr>"
  let ?w0 = "\<lparr>environ = Map.empty, dotenv = Map.empty, events = []\<rparr>"
  obtain report w' where a: "add_update_api_key ?orc ''1'' ''bad-format'' ?w0 = (report, w')"
    by (metis prod.exhaust)
  have s1: "strip ''1'' = ''1''" and s2: "strip ''bad-format'' = ''bad-format''"
    by (simp_all add: strip_def py_isspace_char_def)
  have r: "map_of MODELS (strip ''1'') = None
          \<or> (strip ''bad-format'' \<noteq> []
              \<and> (\<exists>m. map_of MODELS (strip ''1'') = Some m
                     \<and> \<not> validate_key_format (Some (provider m)) (Some (strip ''bad-format''))))"
    by (simp add: s1 s2 map_of_MODELS_1 validate_key_format_def)
  have l: "list_models (listing ?orc) ?w0
             = ([''1'' \<mapsto> False, ''2'' \<mapsto> False, ''3'' \<mapsto> False], ?w0)"
    by (simp add: list_models_nothing_set)
  from add_update_api_key_rejects_before_any_write [OF l a r] a
  show ?thesis by (simp add: s1 map_of_MODELS_1 mask_key_def)
qed

section \<open>Rollback\<close>

text \<open>
  C1, as the claim states it: after a persisted update whose verification fails, the
  stored value equals the old value when that was non-empty and format-valid, and it
  never equals the new value. Both parts fail when \<open>GOOGLE_API_KEY\<close> holds a valid key
  with a trailing space and the operator enters the same key without the space: the
  rollback writes the old key through \<open>_update_env_safely\<close>, which strips it, so the
  stored value afterwards is not the old value and is the new value. (Both writes
  succeed here, and each value is read back as it was written.)
\<close>

theorem rollback_strips_old_key_example:
  "validate_key_format (Some ''Google'') (Some ''AIzaSyOLD '')
   \<and> fst (add_update_api_key
       \<lparr>listing = (\<lambda>i. InvokeRaises ''down''),
        persist_io = IoOk [''GOOGLE_API_KEY'' \<mapsto> ''AIzaSyOLD''],
        probe = InvokeRaises ''down'',
        revert_io = IoOk [''GOOGLE_API_KEY'' \<mapsto> ''AIzaSyOLD'']\<rparr>
       ''1'' ''AIzaSyOLD''
       \<lparr>environ = [''GOOGLE_API_KEY'' \<mapsto> ''AIzaSyOLD ''], dotenv = Map.empty, events = []\<rparr>)
     = VerificationFailedReverted (VerificationFailed ''down'')
   \<and> dotenv (snd (add_update_api_key
       \<lparr>listing = (\<lambda>i. InvokeRaises ''down''),
        persist_io = IoOk [''GOOGLE_API_KEY'' \<mapsto> ''AIzaSyOLD''],
        probe = InvokeRaises ''down'',
        revert_io = IoOk [''GOOGLE_API_KEY'' \<mapsto> ''AIzaSyOLD'']\<rparr>
       ''1'' ''AIzaSyOLD''
       \<lparr>environ = [''GOOGLE_API_KEY'' \<mapsto> ''AIzaSyOLD ''], dotenv = Map.empty, events = []\<rparr>))
       ''GOOGLE_API_KEY''
     = Some ''AIzaSyOLD''
   \<and> environ (snd (add_update_api_key
       \<lparr>listing = (\<lambda>i. InvokeRaises ''down''),
        persist_io = IoOk [''GOOGLE_API_KEY'' \<mapsto> ''AIzaSyOLD''],
        probe = InvokeRaises ''down'',
        revert_io = IoOk [''GOOGLE_API_KEY'' \<mapsto> ''AIzaSyOLD'']\<rparr>
       ''1'' ''AIzaSyOLD''
       \<lparr>environ = [''GOOGLE_API_KEY'' \<mapsto> ''AIzaSyOLD ''], dotenv = Map.empty, events = []\<rparr>))
       ''GOOGLE_API_KEY''
     = Some ''AIzaSyOLD''"
  by (simp add: add_update_api_key_def list_models_def MODELS_def verify_api_key_def
      validate_key_format_def update_env_safely_def revert_key_safely_def flag_dropped_def
      get_provider_def strip_def py_isspace_char_def mask_key_def Let_def)

text \<open>
  The same happens without any whitespace when the operator enters the key that is
  already stored: the rollback restores it, and it is the new value.
\<close>

lemma rollback_to_the_same_key_example:
  "environ (snd (add_update_api_key
       \<lparr>listing = (\<lambda>i. InvokeRaises ''down''),
        persist_io = IoOk [''GOOGLE_API_KEY'' \<mapsto> ''AIzaSyOLD''],
        probe = InvokeRaises ''down'',
        revert_io = IoOk [''GOOGLE_API_KEY'' \<mapsto> ''AIzaSyOLD'']\<rparr>
       ''1'' ''AIzaSyOLD''
       \<lparr>environ = [''GOOGLE_API_KEY'' \<mapsto> ''AIzaSyOLD''], dotenv = Map.empty, events = []\<rparr>))
       ''GOOGLE_API_KEY''
     = Some ''AIzaSyOLD''"
  by (simp add: add_update_api_key_def list_models_def MODELS_def verify_api_key_def
      validate_key_format_def update_env_safely_def revert_key_safely_def flag_dropped_def
      get_provider_def strip_def py_isspace_char_def mask_key_def Let_def)

text \<open>
  \<open>_revert_key_safely\<close> drops the result of its write: when \<open>set_key\<close> fails in the
  rollback, the message of the rollback is still the last one, and the new value stays
  in the store.
\<close>

lemma rollback_write_fails_example:
  "add_update_api_key
       \<lparr>listing = (\<lambda>i. InvokeRaises ''down''),
        persist_io = IoOk [''GOOGLE_API_KEY'' \<mapsto> ''AIzaSyNEW''],
        probe = InvokeRaises ''down'', revert_io = SetKeyRaises ''disk full''\<rparr>
       ''1'' ''AIzaSyNEW''
       \<lparr>environ = [''GOOGLE_API_KEY'' \<mapsto> ''AIzaSyOLD''], dotenv = Map.empty, events = []\<rparr>
    = (VerificationFailedReverted (VerificationFailed ''down''),
       \<lparr>environ = [''GOOGLE_API_KEY'' \<mapsto> ''AIzaSyNEW''],
        dotenv = [''GOOGLE_API_KEY'' \<mapsto> ''AIzaSyNEW''],
        events =
          [LLMConstruct ChatGoogleGenerativeAI ''google_api_key'' ''AIzaSyOLD''
             ''gemini-2.0-flash-exp'' 0,
           LLMInvoke test_messages,
           ShowCurrentKey ''Gemini'' ''AIza...yOLD'',
           SetKey ''GOOGLE_API_KEY'' ''AIzaSyNEW'', LoadDotenv,
           LLMConstruct ChatGoogleGenerativeAI ''google_api_key'' ''AIzaSyNEW''
             ''gemini-2.0-flash-exp'' 0,
           LLMInvoke test_messages,
           SetKey ''GOOGLE_API_KEY'' ''AIzaSyOLD'']\<rparr>)"
  by (simp add: add_update_api_key_def list_models_def MODELS_def verify_api_key_def
      validate_key_format_def update_env_safely_def revert_key_safely_def flag_dropped_def
      get_provider_def strip_def py_isspace_char_def mask_key_def api_key_kwarg_def Let_def)

text \<open>
  When the file lock fails in the rollback, the exception reaches the handler of
  \<open>add_update_api_key\<close>, nothing is written, and the new value stays as well.
\<close>

lemma rollback_lock_fails_example:
  "fst (add_update_api_key
       \<lparr>listing = (\<lambda>i. InvokeRaises ''down''),
        persist_io = IoOk [''GOOGLE_API_KEY'' \<mapsto> ''AIzaSyNEW''],
        probe = InvokeRaises ''down'', revert_io = LockRaises ''no lock file''\<rparr>
       ''1'' ''AIzaSyNEW''
       \<lparr>environ = [''GOOGLE_API_KEY'' \<mapsto> ''AIzaSyOLD''], dotenv = Map.empty, events = []\<rparr>)
     = ErrorUpdatingKey ''no lock file''
   \<and> environ (snd (add_update_api_key
       \<lparr>listing = (\<lambda>i. InvokeRaises ''down''),
        persist_io = IoOk [''GOOGLE_API_KEY'' \<mapsto> ''AIzaSyNEW''],
        probe = InvokeRaises ''down'', revert_io = LockRaises ''no lock file''\<rparr>
       ''1'' ''AIzaSyNEW''
       \<lparr>environ = [''GOOGLE_API_KEY'' \<mapsto> ''AIzaSyOLD''], dotenv = Map.empty, events = []\<rparr>))
       ''GOOGLE_API_KEY''
     = Some ''AIzaSyNEW''"
  by (simp add: add_update_api_key_def list_models_def MODELS_def verify_api_key_def
      validate_key_format_def update_env_safely_def revert_key_safely_def flag_dropped_def
      get_provider_def strip_def py_isspace_char_def mask_key_def Let_def)

text \<open>
  What \<open>load_dotenv\<close> reads back decides the stored value. With \<open>HOME\<close> set to
  \<open>/root\<close>, python-dotenv reads the old key \<open>AIzaSy${HOME}\<close>, which the rollback has
  written, as \<open>AIzaSy/root\<close>; that is then the stored value, and the file holds the
  old key as written.
\<close>

lemma rollback_expanded_on_load_example:
  "environ (snd (add_update_api_key
       \<lparr>listing = (\<lambda>i. InvokeRaises ''down''),
        persist_io = IoOk [''GOOGLE_API_KEY'' \<mapsto> ''AIzaSyNEW''],
        probe = InvokeRaises ''down'',
        revert_io = IoOk [''GOOGLE_API_KEY'' \<mapsto> ''AIzaSy/root'']\<rparr>
       ''1'' ''AIzaSyNEW''
       \<lparr>environ = [''GOOGLE_API_KEY'' \<mapsto> ''AIzaSy${HOME}'', ''HOME'' \<mapsto> ''/root''],
        dotenv = Map.empty, events = []\<rparr>))
       ''GOOGLE_API_KEY''
     = Some ''AIzaSy/root''
   \<and> dotenv (snd (add_update_api_key
       \<lparr>listing = (\<lambda>i. InvokeRaises ''down''),
        persist_io = IoOk [''GOOGLE_API_KEY'' \<mapsto> ''AIzaSyNEW''],
        probe = InvokeRaises ''down'',
        revert_io = IoOk [''GOOGLE_API_KEY'' \<mapsto> ''AIzaSy/root'']\<rparr>
       ''1'' ''AIzaSyNEW''
       \<lparr>environ = [''GOOGLE_API_KEY'' \<mapsto> ''AIzaSy${HOME}'', ''HOME'' \<mapsto> ''/root''],
        dotenv = Map.empty, events = []\<rparr>))
       ''GOOGLE_API_KEY''
     = Some ''AIzaSy${HOME}''"
  by (simp add: add_update_api_key_def list_models_def MODELS_def verify_api_key_def
      validate_key_format_def update_env_safely_def revert_key_safely_def flag_dropped_def
      get_provider_def strip_def py_isspace_char_def mask_key_def Let_def)

text \<open>
  A write is not atomic either: when \<open>set_key\<close> returns and \<open>load_dotenv\<close> raises, the
  file has the new value and the environment the old one.
\<close>

lemma update_env_safely_torn_example:
  "update_env_safely (LoadDotenvRaises ''unreadable'') ''OPENAI_API_KEY'' ''sk-new''
      \<lparr>environ = [''OPENAI_API_KEY'' \<mapsto> ''sk-old''],
       dotenv = [''OPENAI_API_KEY'' \<mapsto> ''sk-old''], events = []\<rparr>
    = (Inr False,
       \<lparr>environ = [''OPENAI_API_KEY'' \<mapsto> ''sk-old''],
        dotenv = [''OPENAI_API_KEY'' \<mapsto> ''sk-new''],
        events = [SetKey ''OPENAI_API_KEY'' ''sk-new'', LoadDotenv]\<rparr>)"
  by (simp add: update_env_safely_def strip_def py_isspace_char_def)

text \<open>
  C1, amended. For every registered provider: if the update persists the new value (the
  stripped input, non-empty and format-valid; the first write succeeds and the new value
  is what is read back), the verification that follows fails (by the probe: no response
  with \<open>OK\<close> inside), and the write of the rollback succeeds with its value read back
  as written, then the rollback has written, and the stored value for the provider's key
  afterwards is, the old value with surrounding whitespace stripped when the old value
  was non-empty and format-valid, and the empty string otherwise (also when there was no
  old value). The stored value equals the new value only when that stripped old value is
  the new value.
\<close>

theorem add_update_api_key_rollback:
  assumes m: "map_of MODELS (strip model_id_line) = Some m"
    and nk: "new_key = strip new_key_line"
    and ne: "new_key \<noteq> []"
    and v: "validate_key_format (Some (provider m)) (Some new_key)"
    and p: "persist_io orc = IoOk read1"
    and p1: "read1 (key_env m) = Some new_key"
    and f: "\<not> (\<exists>content. probe orc = Responds content \<and> py_in ''OK'' content)"
    and tg: "target = (case environ w0 (key_env m) of
                         None \<Rightarrow> []
                       | Some old \<Rightarrow>
                           if old \<noteq> [] \<and> validate_key_format (Some (provider m)) (Some old)
                           then strip old else [])"
    and rv: "revert_io orc = IoOk read2"
    and rb: "read2 (key_env m) = Some target"
    and a: "add_update_api_key orc model_id_line new_key_line w0 = (report, w')"
  shows "(\<exists>msg. report = VerificationFailedReverted msg)
       \<and> (\<exists>es. events w' = es @ [SetKey (key_env m) target, LoadDotenv])
       \<and> dotenv w' (key_env m) = Some target
       \<and> environ w' (key_env m) = Some target
       \<and> (environ w' (key_env m) = Some new_key
            \<longleftrightarrow> (\<exists>old. environ w0 (key_env m) = Some old \<and> old \<noteq> []
                      \<and> validate_key_format (Some (provider m)) (Some old)
                      \<and> strip old = new_key))"
proof -
  obtain st wl where l: "list_models (listing orc) w0 = (st, wl)"
    by (metis prod.exhaust)
  have el: "environ wl = environ w0" by (rule list_models_frame(1) [OF l])
  define ws where
    "ws = wl\<lparr>events := events wl @
             [ShowCurrentKey (name m) (mask_key (environ wl (key_env m)))]\<rparr>"
  define w1 where
    "w1 = ws\<lparr>dotenv := (dotenv ws)(key_env m \<mapsto> strip new_key),
             environ := environ ws ++ read1,
             events := events ws @ [SetKey (key_env m) (strip new_key), LoadDotenv]\<rparr>"
  have u: "update_env_safely (IoOk read1) (key_env m) new_key ws = (Inr True, w1)"
    by (simp add: update_env_safely_ok w1_def)
  have e1: "environ w1 (key_env m) = Some new_key"
    by (simp add: w1_def p1)
  obtain ok msg w2 where
    vr: "verify_api_key (probe orc) (strip model_id_line) w1 = ((ok, msg), w2)"
    by (metis prod.exhaust)
  from verify_api_key_ok_iff [OF m e1 v, of "probe orc"] f vr have nok: "\<not> ok" by simp
  have t2: "target = (case environ wl (key_env m) of
                        None \<Rightarrow> []
                      | Some k \<Rightarrow>
                          if k \<noteq> [] \<and> validate_key_format (get_provider (key_env m)) (Some k)
                          then strip k else [])"
    by (simp add: tg el get_provider_registered [OF m] split: option.splits)
  define w3 where
    "w3 = w2\<lparr>dotenv := (dotenv w2)(key_env m \<mapsto> target), environ := environ w2 ++ read2,
             events := events w2 @ [SetKey (key_env m) target, LoadDotenv]\<rparr>"
  have r: "revert_key_safely (IoOk read2) (key_env m) (environ wl (key_env m)) w2
             = (Inr (), w3)"
    by (simp add: revert_key_safely_ok [OF t2] w3_def)
  from a l m ne nk v p u vr nok rv r
  have rep: "report = VerificationFailedReverted msg" and w': "w' = w3"
    by (simp_all add: add_update_api_key_def Let_def ws_def)
  have ev: "\<exists>es. events w' = es @ [SetKey (key_env m) target, LoadDotenv]"
    by (simp add: w' w3_def)
  have d: "dotenv w' (key_env m) = Some target" by (simp add: w' w3_def)
  have fin: "environ w' (key_env m) = Some target" by (simp add: w' w3_def rb)
  have "(environ w' (key_env m) = Some new_key
            \<longleftrightarrow> (\<exists>old. environ w0 (key_env m) = Some old \<and> old \<noteq> []
                      \<and> validate_key_format (Some (provider m)) (Some old)
                      \<and> strip old = new_key))"
    using ne by (auto simp: fin tg split: option.splits)
  with rep ev d fin show ?thesis by blast
qed

theorem add_update_api_key_rollback_witness:
  "environ (snd (add_update_api_key
       \<lparr>listing = (\<lambda>i. Responds ''OK''),
        persist_io = IoOk [''GOOGLE_API_KEY'' \<mapsto> ''AIzaSy_new''],
        probe = InvokeRaises ''401'',
        revert_io = IoOk [''GOOGLE_API_KEY'' \<mapsto> ''AIzaSy_old_valid'']\<rparr>
       ''1'' ''AIzaSy_new''
       \<lparr>environ = [''GOOGLE_API_KEY'' \<mapsto> ''AIzaSy_old_valid''], dotenv = Map.empty,
        events = []\<rparr>)) ''GOOGLE_API_KEY''
     = Some ''AIzaSy_old_valid''"
proof -
  let ?orc = "\<lparr>listing = (\<lambda>i. Responds ''OK''),
        persist_io = IoOk [''GOOGLE_API_KEY'' \<mapsto> ''AIzaSy_new''],
        probe = InvokeRaises ''401'',
        revert_io = IoOk [''GOOGLE_API_KEY'' \<mapsto> ''AIzaSy_old_valid'']\<rparr>"
  let ?w0 = "\<lparr>environ = [''GOOGLE_API_KEY'' \<mapsto> ''AIzaSy_old_valid''], dotenv = Map.empty,
        events = []\<rparr>"
  let ?m = "\<lparr>name = ''Gemini'', provider = ''Google'',
     model = ''gemini-2.0-flash-exp'', key_env = ''GOOGLE_API_KEY'',
     llm_class = ChatGoogleGenerativeAI\<rparr>"
  have s1: "strip ''1'' = ''1''" and s2: "''AIzaSy_new'' = strip ''AIzaSy_new''"
    and s3: "strip ''AIzaSy_old_valid'' = ''AIzaSy_old_valid''"
    by (simp_all add: strip_def py_isspace_char_def)
  have m: "map_of MODELS (strip ''1'') = Some ?m"
    by (simp add: s1 map_of_MODELS_1)
  have ne: "''AIzaSy_new'' \<noteq> []" by simp
  have v: "validate_key_format (Some (provider ?m)) (Some ''AIzaSy_new'')"
    by (simp add: validate_key_format_def)
  have p: "persist_io ?orc = IoOk [''GOOGLE_API_KEY'' \<mapsto> ''AIzaSy_new'']" by simp
  have p1: "[''GOOGLE_API_KEY'' \<mapsto> ''AIzaSy_new''] (key_env ?m) = Some ''AIzaSy_new''"
    by simp
  have f: "\<not> (\<exists>content. probe ?orc = Responds content \<and> py_in ''OK'' content)" by simp
  have tg: "''AIzaSy_old_valid''
              = (case environ ?w0 (key_env ?m) of
                   None \<Rightarrow> []
                 | Some old \<Rightarrow>
                     if old \<noteq> [] \<and> validate_key_format (Some (provider ?m)) (Some old)
                     then strip old else [])"
    by (simp add: s3 validate_key_format_def)
  have rv: "revert_io ?orc = IoOk [''GOOGLE_API_KEY'' \<mapsto> ''AIzaSy_old_valid'']" by simp
  have rb: "[''GOOGLE_API_KEY'' \<mapsto> ''AIzaSy_old_valid''] (key_env ?m)
              = Some ''AIzaSy_old_valid''"
    by simp
  have a: "add_update_api_key ?orc ''1'' ''AIzaSy_new'' ?w0
             = (fst (add_update_api_key ?orc ''1'' ''AIzaSy_new'' ?w0),
                snd (add_update_api_key ?orc ''1'' ''AIzaSy_new'' ?w0))"
    by simp
  from add_update_api_key_rollback [OF m s2 ne v p p1 f tg rv rb a]
  show ?thesis by simp
qed

section \<open>Initialization of the browser session\<close>

lemma initialize_ready:
  "browser s \<noteq> None \<Longrightarrow> bcontext s \<noteq> None \<Longrightarrow> initialize out s = (Inr (), s)"
  by (simp add: initialize_def)

lemma initialize_times_ready:
  "browser s \<noteq> None \<Longrightarrow> bcontext s \<noteq> None \<Longrightarrow> initialize_times outs s = s"
  by (induction outs) (simp_all add: initialize_ready)

lemma counted_new: "counted new_automation"
  by (simp add: counted_def new_automation_def browsers_built_def contexts_built_def)

lemma counted_initialize: "counted s \<Longrightarrow> counted (snd (initialize out s))"
  by (cases "browser s"; cases "bcontext s"; cases "browser_new out"; cases "context_new out")
    (simp_all add: counted_def initialize_def initialize_context_def browsers_built_def
      contexts_built_def)

lemma counted_initialize_times: "counted s \<Longrightarrow> counted (initialize_times outs s)"
  by (induction outs arbitrary: s) (simp_all add: counted_initialize)

lemma counted_at_most_one: "counted s \<Longrightarrow> browsers_built s \<le> 1 \<and> contexts_built s \<le> 1"
  by (auto simp: counted_def split: option.splits)

text \<open>
  C7. Initialization is idempotent. When the browser and the context are both set,
  \<open>initialize\<close> returns at once and changes nothing: no field, no call. From a new
  object, once a call has built both, any number of further calls (whatever the
  constructors would do) leaves one browser and one context built, by that first call;
  and in any sequence of calls, failed ones included, at most one browser and at most one
  context are ever built.
\<close>

theorem initialize_idempotent:
  "(browser s \<noteq> None \<and> bcontext s \<noteq> None \<longrightarrow> initialize out s = (Inr (), s))
   \<and> (browser_new out1 = Inr b \<and> context_new out1 = Inr c \<longrightarrow>
        initialize_times (out1 # outs) new_automation
          = \<lparr>browser = Some b, bcontext = Some c,
             calls = [BrowserNew (Inr b), NewContext b (Inr c)]\<rparr>
        \<and> browsers_built (initialize_times (out1 # outs) new_automation) = 1
        \<and> contexts_built (initialize_times (out1 # outs) new_automation) = 1)
   \<and> browsers_built (initialize_times outs new_automation) \<le> 1
   \<and> contexts_built (initialize_times outs new_automation) \<le> 1"
proof -
  have ready: "browser s \<noteq> None \<and> bcontext s \<noteq> None \<longrightarrow> initialize out s = (Inr (), s)"
    by (simp add: initialize_ready)
  have once: "initialize_times (out1 # outs) new_automation
          = \<lparr>browser = Some b, bcontext = Some c,
             calls = [BrowserNew (Inr b), NewContext b (Inr c)]\<rparr>"
    if "browser_new out1 = Inr b" and "context_new out1 = Inr c"
  proof -
    from that have "snd (initialize out1 new_automation)
          = \<lparr>browser = Some b, bcontext = Some c,
             calls = [BrowserNew (Inr b), NewContext b (Inr c)]\<rparr>"
      by (simp add: initialize_def initialize_context_def new_automation_def)
    then show ?thesis by (simp add: initialize_times_ready)
  qed
  have most: "browsers_built (initialize_times outs new_automation) \<le> 1
      \<and> contexts_built (initialize_times outs new_automation) \<le> 1"
    by (rule counted_at_most_one [OF counted_initialize_times [OF counted_new]])
  from ready once most show ?thesis
    by (simp add: browsers_built_def contexts_built_def)
qed

theorem initialize_idempotent_witness:
  "initialize_times
     [\<lparr>browser_new = Inr (1::nat), context_new = Inr (7::nat)\<rparr>,
      \<lparr>browser_new = Inr 2, context_new = Inr 8\<rparr>,
      \<lparr>browser_new = Inl ''no display'', context_new = Inr 9\<rparr>] new_automation
    = \<lparr>browser = Some 1, bcontext = Some 7,
       calls = [BrowserNew (Inr 1), NewContext 1 (Inr 7)]\<rparr>
   \<and> initialize \<lparr>browser_new = Inr 2, context_new = Inr 8\<rparr>
        \<lparr>browser = Some (1::nat), bcontext = Some (7::nat),
         calls = [BrowserNew (Inr 1), NewContext 1 (Inr 7)]\<rparr>
      = (Inr (), \<lparr>browser = Some 1, bcontext = Some 7,
                  calls = [BrowserNew (Inr 1), NewContext 1 (Inr 7)]\<rparr>)"
  using
    initialize_idempotent [of
      "\<lparr>browser = Some (1::nat), bcontext = Some (7::nat),
        calls = [BrowserNew (Inr 1), NewContext 1 (Inr 7)]\<rparr>"
      "\<lparr>browser_new = Inr 2, context_new = Inr 8\<rparr>"
      "\<lparr>browser_new = Inr (1::nat), context_new = Inr (7::nat)\<rparr>" 1 7
      "[\<lparr>browser_new = Inr 2, context_new = Inr 8\<rparr>,
        \<lparr>browser_new = Inl ''no display'', context_new = Inr 9\<rparr>]"]
  by simp

text \<open>
  C8, as the claim states it: after a failed initialization neither the browser handle nor
  the context remains set. When \<open>Browser()\<close> succeeds and \<open>new_context()\<close> raises, the
  error leaves \<open>initialize\<close> and the browser handle stays set.
\<close>

theorem initialize_failure_keeps_browser_example:
  "initialize \<lparr>browser_new = Inr (1::nat), context_new = (Inl ''boom'' :: string + nat)\<rparr>
      new_automation
    = (Inl ''boom'',
       \<lparr>browser = Some 1, bcontext = None,
        calls = [BrowserNew (Inr 1), NewContext 1 (Inl ''boom'')]\<rparr>)"
  by (simp add: initialize_def initialize_context_def new_automation_def)

text \<open>
  C8, amended. When \<open>initialize\<close> fails, the error of the failed constructor is the one
  that reaches the caller, and the session is not ready; the context is as it was before
  the call. Either \<open>Browser()\<close> failed and no browser is set, or \<open>new_context()\<close>
  failed, no context is set, and the browser handle is kept: the one that was there, or
  the one this call has just built.
\<close>

theorem initialize_failure:
  assumes "initialize out s = (Inl e, s')"
  shows "\<not> (browser s' \<noteq> None \<and> bcontext s' \<noteq> None)
       \<and> bcontext s' = bcontext s
       \<and> ((browser s = None \<and> browser_new out = Inl e \<and> browser s' = None)
          \<or> (bcontext s = None \<and> context_new out = Inl e
              \<and> (case browser s of
                    Some b \<Rightarrow> browser s' = Some b
                  | None \<Rightarrow> \<exists>b. browser_new out = Inr b \<and> browser s' = Some b)))"
  using assms
  by (cases "browser s"; cases "bcontext s"; cases "browser_new out"; cases "context_new out")
    (auto simp: initialize_def initialize_context_def)

theorem initialize_failure_witness:
  "browser (snd (initialize
       \<lparr>browser_new = Inr (1::nat), context_new = (Inl ''boom'' :: string + nat)\<rparr>
       new_automation)) = Some 1
   \<and> bcontext (snd (initialize
       \<lparr>browser_new = Inr (1::nat), context_new = (Inl ''boom'' :: string + nat)\<rparr>
       new_automation)) = None"
proof -
  let ?out = "\<lparr>browser_new = Inr (1::nat), context_new = (Inl ''boom'' :: string + nat)\<rparr>"
  have a: "initialize ?out new_automation = (Inl ''boom'', snd (initialize ?out new_automation))"
    by (simp add: initialize_def initialize_context_def new_automation_def)
  from initialize_failure [OF a] show ?thesis
    by (simp add: new_automation_def)
qed

section \<open>Teardown\<close>

text \<open>
  C9, as the claim states it: the two closes are guarded one by one, and both handles
  are null afterwards. When \<open>context.close()\<close> raises, the one handler ends the block:
  the browser is never closed, and both handles stay set.
\<close>

theorem cleanup_stops_at_first_failure_example:
  "cleanup \<lparr>context_close = Some ''boom'', browser_close = None\<rparr>
      \<lparr>browser = Some (1::nat), bcontext = Some (7::nat), calls = []\<rparr>
    = (Inr (), \<lparr>browser = Some 1, bcontext = Some 7,
                calls = [ContextClose 7 (Some ''boom'')]\<rparr>)"
  by (simp add: cleanup_def cleanup_body_def)

text \<open>
  C9, amended. \<open>cleanup\<close> never raises. It closes the context, then the browser, under
  one guard. When no close that it attempts fails, both handles are null afterwards (and
  with both set, the context is closed before the browser). When closing the context
  fails, nothing else happens: the browser is not closed and both handles stay as they
  were. When closing the browser fails, the context handle is null and the browser
  handle stays set.
\<close>

theorem cleanup_single_guard:
  "fst (cleanup out s) = Inr ()
   \<and> ((bcontext s = None \<or> context_close out = None)
        \<and> (browser s = None \<or> browser_close out = None)
       \<longrightarrow> browser (snd (cleanup out s)) = None \<and> bcontext (snd (cleanup out s)) = None)
   \<and> (\<forall>b c. browser s = Some b \<and> bcontext s = Some c
          \<and> context_close out = None \<and> browser_close out = None
       \<longrightarrow> calls (snd (cleanup out s)) = calls s @ [ContextClose c None, BrowserClose b None])
   \<and> (\<forall>c e. bcontext s = Some c \<and> context_close out = Some e
       \<longrightarrow> snd (cleanup out s) = s\<lparr>calls := calls s @ [ContextClose c (Some e)]\<rparr>)
   \<and> (\<forall>b e. (bcontext s = None \<or> context_close out = None)
          \<and> browser s = Some b \<and> browser_close out = Some e
       \<longrightarrow> bcontext (snd (cleanup out s)) = None \<and> browser (snd (cleanup out s)) = Some b)"
  by (cases "browser s"; cases "bcontext s"; cases "browser_close out"; cases "context_close out")
    (simp_all add: cleanup_def cleanup_body_def cleanup_browser_def)

theorem cleanup_single_guard_witness:
  "cleanup \<lparr>context_close = None, browser_close = None\<rparr>
      \<lparr>browser = Some (1::nat), bcontext = Some (7::nat), calls = []\<rparr>
    = (Inr (), \<lparr>browser = None, bcontext = None,
                calls = [ContextClose 7 None, BrowserClose 1 None]\<rparr>)"
  using cleanup_single_guard [of "\<lparr>context_close = None, browser_close = None\<rparr>"
      "\<lparr>browser = Some (1::nat), bcontext = Some (7::nat), calls = []\<rparr>"]
  by (simp add: cleanup_def cleanup_body_def cleanup_browser_def)


end
